theory Spec2Isabelle
  imports
    Main
    "HOL-Library.AList"
    "HOL-Library.Multiset"
    "HOL-Library.Char_ord"
    "HOL-Library.List_Lexorder"
    "HOL-Library.Product_Lexorder"
begin

section \<open>SlipDayTracker: a shallow embedding of CountSlips.py\<close>

text \<open>
  Conventions of the embedding.
  \<^item> A Python \<open>str\<close> is a \<open>string\<close>; the character tests used by the program
    (\<open>str.strip\<close>, \<open>str.split\<close>, \<open>str.isdigit\<close>, \<open>str.lower\<close>) are modelled on the
    ASCII range, characters above it being neither white space nor digits nor letters.
  \<^item> A Python \<open>int\<close> is an \<open>int\<close>; \<open>//\<close> is floor division, as \<open>div\<close> on \<open>int\<close>.
  \<^item> A \<open>dict\<close> that is iterated is an association list with distinct keys in insertion
    order; \<open>d[k] = v\<close> is \<open>AList.update k v d\<close> (an existing key keeps its position, a new
    key goes to the end). A \<open>dict\<close> that is only read with \<open>.get\<close> is a map.
  \<^item> Optional arguments (\<open>SaveState | None\<close>, \<open>set[str] | None\<close>) are \<open>option\<close>s.
\<close>

subsection \<open>String primitives\<close>

definition is_space :: "char \<Rightarrow> bool" where
  "is_space c = (let n = (of_char c :: nat) in (9 \<le> n \<and> n \<le> 13) \<or> (28 \<le> n \<and> n \<le> 32))"

definition is_digit :: "char \<Rightarrow> bool" where
  "is_digit c = (let n = (of_char c :: nat) in 48 \<le> n \<and> n \<le> 57)"

definition lower_char :: "char \<Rightarrow> char" where
  "lower_char c = (let n = (of_char c :: nat) in if 65 \<le> n \<and> n \<le> 90 then char_of (n + 32) else c)"

definition lower :: "string \<Rightarrow> string" where
  "lower s = map lower_char s"

definition strip :: "string \<Rightarrow> string" where
  "strip s = rev (dropWhile is_space (rev (dropWhile is_space s)))"

text \<open>\<open>s.isdigit()\<close>: every character is a digit and there is at least one.\<close>

definition isdigit :: "string \<Rightarrow> bool" where
  "isdigit s = (s \<noteq> [] \<and> list_all is_digit s)"

definition endswith :: "string \<Rightarrow> string \<Rightarrow> bool" where
  "endswith s suf = (length suf \<le> length s \<and> drop (length s - length suf) s = suf)"

text \<open>\<open>s.split(sep, 1)\<close> for a one-character separator.\<close>

definition split_once :: "char \<Rightarrow> string \<Rightarrow> string list" where
  "split_once sep s =
     (if sep \<in> set s
      then [takeWhile (\<lambda>c. c \<noteq> sep) s, tl (dropWhile (\<lambda>c. c \<noteq> sep) s)]
      else [s])"

text \<open>\<open>s.split()\<close>: the maximal runs of characters that are not white space.\<close>

fun split_ws_acc :: "string \<Rightarrow> string \<Rightarrow> string list" where
  "split_ws_acc cur [] = (if cur = [] then [] else [cur])"
| "split_ws_acc cur (c # cs) =
     (if is_space c
      then (if cur = [] then split_ws_acc [] cs else cur # split_ws_acc [] cs)
      else split_ws_acc (cur @ [c]) cs)"

definition split_ws :: "string \<Rightarrow> string list" where
  "split_ws s = split_ws_acc [] s"

text \<open>\<open>sep.join(parts)\<close>.\<close>

fun join :: "string \<Rightarrow> string list \<Rightarrow> string" where
  "join sep [] = []"
| "join sep [x] = x"
| "join sep (x # y # zs) = x @ sep @ join sep (y # zs)"

text \<open>\<open>str(n)\<close> for a natural number \<open>n\<close>: its decimal digits.\<close>

fun string_of_nat :: "nat \<Rightarrow> string" where
  "string_of_nat n =
     (if n < 10 then [char_of (48 + n)]
      else string_of_nat (n div 10) @ [char_of (48 + n mod 10)])"

declare string_of_nat.simps [simp del]

subsection \<open>Data model\<close>

record StudentState =
  key :: string
  name :: string
  student_id :: string
  tracked :: bool
  used :: int
  notes' :: string
  dropped :: bool
  attendance_confirmed :: int
  earned :: int

definition available :: "StudentState \<Rightarrow> int" where
  "available st = max 0 (earned st - used st)"

record SaveState =
  roster_keys_in_order :: "string list"
  students :: "(string \<times> StudentState) list"
  last_csv_name :: string

subsection \<open>Slip calculation\<close>

definition ATTENDANCES_PER_SLIP :: int where
  "ATTENDANCES_PER_SLIP = 5"

definition compute_earned :: "int \<Rightarrow> int" where
  "compute_earned att = att div ATTENDANCES_PER_SLIP"

subsection \<open>Reconciliation\<close>

text \<open>
  The two indexes built from the prior records, in the iteration order of
  \<open>prior_students.values()\<close>: by stripped student id (a later record replaces an earlier one
  with the same id) and by name (the records bearing a name, in order).
\<close>

definition index_step ::
  "StudentState \<Rightarrow> (string \<rightharpoonup> StudentState) \<times> (string \<rightharpoonup> StudentState list) \<Rightarrow>
   (string \<rightharpoonup> StudentState) \<times> (string \<rightharpoonup> StudentState list)" where
  "index_step =
     (\<lambda>pst (by_sid, by_name).
        (let sid = strip (student_id pst) in
         (if sid \<noteq> [] then by_sid(sid \<mapsto> pst) else by_sid,
          by_name(name pst \<mapsto>
            (case by_name (name pst) of None \<Rightarrow> [] | Some ms \<Rightarrow> ms) @ [pst]))))"

definition index_prior ::
  "StudentState list \<Rightarrow> (string \<rightharpoonup> StudentState) \<times> (string \<rightharpoonup> StudentState list)" where
  "index_prior psts = fold index_step psts (Map.empty, Map.empty)"

text \<open>The fallback chain that looks for the prior record of a roster key.\<close>

definition find_prev ::
  "(string \<times> StudentState) list \<Rightarrow> (string \<rightharpoonup> StudentState) \<Rightarrow>
   (string \<rightharpoonup> StudentState list) \<Rightarrow> string \<Rightarrow> string \<Rightarrow> string \<Rightarrow> StudentState option" where
  "find_prev prior_students prior_by_sid prior_by_name k nm sid =
     (let prev = map_of prior_students k;
          prev = (if prev = None \<and> sid \<noteq> [] then prior_by_sid sid else prev);
          prev = (if prev = None \<and> nm \<noteq> []
                  then (let matches = (case prior_by_name nm of None \<Rightarrow> [] | Some ms \<Rightarrow> ms)
                        in if length matches = 1 then Some (hd matches) else prev)
                  else prev)
      in prev)"

text \<open>
  \<open>meta = student_meta.get(key, {"name": "", "student_id": ""})\<close>, then
  \<open>str(meta.get("name", ""))\<close> and \<open>str(meta.get("student_id", ""))\<close>.
\<close>

definition meta_of :: "(string \<rightharpoonup> (string \<rightharpoonup> string)) \<Rightarrow> string \<Rightarrow> (string \<rightharpoonup> string)" where
  "meta_of student_meta k =
     (case student_meta k of
        None \<Rightarrow> [''name'' \<mapsto> [], ''student_id'' \<mapsto> []] | Some m \<Rightarrow> m)"

definition meta_name :: "(string \<rightharpoonup> (string \<rightharpoonup> string)) \<Rightarrow> string \<Rightarrow> string" where
  "meta_name student_meta k =
     (case meta_of student_meta k ''name'' of None \<Rightarrow> [] | Some v \<Rightarrow> v)"

definition meta_sid :: "(string \<rightharpoonup> (string \<rightharpoonup> string)) \<Rightarrow> string \<Rightarrow> string" where
  "meta_sid student_meta k =
     (case meta_of student_meta k ''student_id'' of None \<Rightarrow> [] | Some v \<Rightarrow> v)"

text \<open>The body of the loop over the roster keys: the record built for one key.\<close>

definition reconcile_student ::
  "(string \<rightharpoonup> int) \<Rightarrow> (string \<rightharpoonup> (string \<rightharpoonup> string)) \<Rightarrow> (string \<times> StudentState) list \<Rightarrow>
   (string \<rightharpoonup> StudentState) \<Rightarrow> (string \<rightharpoonup> StudentState list) \<Rightarrow> string set option \<Rightarrow>
   string \<Rightarrow> StudentState" where
  "reconcile_student ac student_meta prior_students prior_by_sid prior_by_name selected_tracked k =
     (let nm = meta_name student_meta k;
          sid = meta_sid student_meta k;
          prev = find_prev prior_students prior_by_sid prior_by_name k nm sid;
          trk = (case prev of None \<Rightarrow> False | Some p \<Rightarrow> tracked p);
          usd = (case prev of None \<Rightarrow> 0 | Some p \<Rightarrow> used p);
          nts = (case prev of None \<Rightarrow> [] | Some p \<Rightarrow> notes' p);
          drp = (case prev of None \<Rightarrow> False | Some p \<Rightarrow> dropped p);
          trk = (case selected_tracked of None \<Rightarrow> trk | Some sel \<Rightarrow> k \<in> sel);
          att = (case ac k of None \<Rightarrow> 0 | Some c \<Rightarrow> c);
          ern = compute_earned att
      in \<lparr>key = k, name = nm, student_id = sid, tracked = trk,
          used = (if usd > ern then ern else usd), notes' = nts, dropped = drp,
          attendance_confirmed = att, earned = ern\<rparr>)"

definition prior_students_of :: "SaveState option \<Rightarrow> (string \<times> StudentState) list" where
  "prior_students_of prior = (case prior of None \<Rightarrow> [] | Some p \<Rightarrow> students p)"

definition reconcile_state_with_csv ::
  "string list \<Rightarrow> (string \<rightharpoonup> int) \<Rightarrow> (string \<rightharpoonup> (string \<rightharpoonup> string)) \<Rightarrow> SaveState option \<Rightarrow>
   string set option \<Rightarrow> string \<Rightarrow> SaveState" where
  "reconcile_state_with_csv roster ac student_meta prior selected_tracked csv_name =
     (let prior_students = prior_students_of prior;
          (prior_by_sid, prior_by_name) = index_prior (map snd prior_students)
      in \<lparr>roster_keys_in_order = roster,
          students =
            fold (\<lambda>k. AList.update k
                    (reconcile_student ac student_meta prior_students prior_by_sid prior_by_name
                       selected_tracked k))
                 roster [],
          last_csv_name = csv_name\<rparr>)"

subsection \<open>Slip accounting in the table window\<close>

text \<open>
  \<open>do_use\<close> acts on the selected record. It either shows a message box and returns with the
  record untouched, or adds \<open>n\<close> to \<open>used\<close>. The result is the message shown, if any, and the
  record afterwards.
\<close>

datatype message = Dropped_info | Not_enough_warning int

definition do_use :: "StudentState \<Rightarrow> int \<Rightarrow> message option \<times> StudentState" where
  "do_use st n =
     (if dropped st then (Some Dropped_info, st)
      else if available st < n then (Some (Not_enough_warning (available st)), st)
      else (None, st\<lparr>used := used st + n\<rparr>))"

subsection \<open>CSV parsing\<close>

text \<open>
  The table read by pandas is taken as given: its column names and its rows. A row maps a
  column name to the text \<open>str(cell)\<close> of its cell (\<open>''nan''\<close> for an empty cell), and to
  \<open>None\<close> where \<open>row.get\<close> returns \<open>None\<close>.
\<close>

type_synonym row = "string \<rightharpoonup> string"

record dataframe =
  columns :: "string list"
  rows :: "row list"

datatype csv_error = Missing_Student_column | No_attendance_columns

definition CONFIRMED_ATTENDANCE_VALUES :: "string set" where
  "CONFIRMED_ATTENDANCE_VALUES = {''1'', ''1.0'', ''1.00'', ''1.000'', ''1.0000'', ''EX''}"

text \<open>
  The header pattern \<^verbatim>\<open>^\s*(\d{1,2})-(\d{1,2})\s*\(\<close>: optional white space, one or two
  digits, a dash, one or two digits, optional white space, an opening parenthesis.
\<close>

definition attendance_col_match :: "string \<Rightarrow> bool" where
  "attendance_col_match c =
     (let s1 = dropWhile is_space c;
          d1 = takeWhile is_digit s1
      in (length d1 = 1 \<or> length d1 = 2) \<and>
         (case dropWhile is_digit s1 of
            [] \<Rightarrow> False
          | dash # s2 \<Rightarrow>
              dash = CHR ''-'' \<and>
              (let d2 = takeWhile is_digit s2
               in (length d2 = 1 \<or> length d2 = 2) \<and>
                  (case dropWhile is_space (dropWhile is_digit s2) of
                     [] \<Rightarrow> False
                   | paren # _ \<Rightarrow> paren = CHR ''(''))))"

definition is_real_student :: "string option \<Rightarrow> bool" where
  "is_real_student val =
     (case val of
        None \<Rightarrow> False
      | Some v \<Rightarrow>
          (let s = strip v in
           if s = [] then False
           else if lower s \<in> {''nan'', ''points possible''} then False
           else True))"

definition normalize_name :: "string option \<Rightarrow> string" where
  "normalize_name raw =
     (let s = strip (case raw of None \<Rightarrow> ''None'' | Some v \<Rightarrow> v) in
      if CHR '','' \<in> set s
      then (let parts = map strip (split_once CHR '','' s) in
            if length parts = 2 \<and> parts ! 1 \<noteq> [] \<and> parts ! 0 \<noteq> []
            then strip (parts ! 1 @ '' '' @ parts ! 0)
            else s)
      else s)"

definition normalize_sis :: "string option \<Rightarrow> string" where
  "normalize_sis raw_id =
     (case raw_id of
        None \<Rightarrow> []
      | Some v \<Rightarrow>
          (let sid = strip v;
               sid = (if lower sid = ''nan'' then [] else sid)
           in if endswith sid ''.0'' \<and> isdigit (take (length sid - 2) sid)
              then take (length sid - 2) sid
              else sid))"

text \<open>The name and the student id that both loops over the rows compute first.\<close>

definition row_identity :: "bool \<Rightarrow> row \<Rightarrow> string \<times> string" where
  "row_identity has_sis r =
     (normalize_name (r ''Student''),
      if has_sis then normalize_sis (r ''SIS User ID'') else [])"

text \<open>
  The key of a row and the occurrence counter afterwards: \<open>sid:<id>\<close> when there is an id,
  else \<open>name:<name>#<n>\<close> with \<open>n\<close> the number of id-less rows of that name so far.
\<close>

definition row_key :: "string \<Rightarrow> string \<Rightarrow> (string \<rightharpoonup> nat) \<Rightarrow> string \<times> (string \<rightharpoonup> nat)" where
  "row_key nm sid occ =
     (if sid \<noteq> [] then (''sid:'' @ sid, occ)
      else (let n = (case occ nm of None \<Rightarrow> 0 | Some c \<Rightarrow> c) + 1
            in (''name:'' @ nm @ ''#'' @ string_of_nat n, occ(nm \<mapsto> n))))"

text \<open>The first loop: keys in row order and the metadata of each key.\<close>

fun assign_keys ::
  "(string \<times> string) list \<Rightarrow>
   (string \<rightharpoonup> nat) \<times> string list \<times> (string \<rightharpoonup> (string \<rightharpoonup> string)) \<Rightarrow>
   (string \<rightharpoonup> nat) \<times> string list \<times> (string \<rightharpoonup> (string \<rightharpoonup> string))" where
  "assign_keys [] st = st"
| "assign_keys ((nm, sid) # rs) (occ, roster, student_meta) =
     (let (k, occ') = row_key nm sid occ
      in assign_keys rs
           (occ', roster @ [k], student_meta(k \<mapsto> [''name'' \<mapsto> nm, ''student_id'' \<mapsto> sid])))"

definition last_name_sort_key :: "string \<Rightarrow> string \<times> string" where
  "last_name_sort_key display_name =
     (let parts = split_ws (strip display_name) in
      if parts = [] then ([], [])
      else (lower (last parts), lower (join '' '' (butlast parts))))"

text \<open>The sort key of a roster key; tuples and strings compare lexicographically.\<close>

definition roster_sort_key ::
  "(string \<rightharpoonup> (string \<rightharpoonup> string)) \<Rightarrow> string \<Rightarrow> (string \<times> string) \<times> string \<times> string" where
  "roster_sort_key student_meta k =
     (let m = (case student_meta k of None \<Rightarrow> Map.empty | Some m \<Rightarrow> m)
      in (last_name_sort_key (case m ''name'' of None \<Rightarrow> [] | Some v \<Rightarrow> v),
          (case m ''student_id'' of None \<Rightarrow> [] | Some v \<Rightarrow> v),
          k))"

text \<open>The second loop: the confirmed attendances of each key.\<close>

fun count_attendance ::
  "string list \<Rightarrow> ((string \<times> string) \<times> row) list \<Rightarrow> (string \<rightharpoonup> nat) \<Rightarrow>
   (string \<rightharpoonup> int) \<Rightarrow> (string \<rightharpoonup> int)" where
  "count_attendance attendance_cols [] occ confirmed = confirmed"
| "count_attendance attendance_cols (((nm, sid), r) # rs) occ confirmed =
     (let (k, occ') = row_key nm sid occ;
          count = int (length (filter
                    (\<lambda>col. case r col of
                             None \<Rightarrow> False
                           | Some cell \<Rightarrow> strip cell \<in> CONFIRMED_ATTENDANCE_VALUES)
                    attendance_cols))
      in count_attendance attendance_cols rs occ' (confirmed(k \<mapsto> count)))"

definition df_students :: "dataframe \<Rightarrow> row list" where
  "df_students df = filter (\<lambda>r. is_real_student (r ''Student'')) (rows df)"

definition has_sis :: "dataframe \<Rightarrow> bool" where
  "has_sis df = (''SIS User ID'' \<in> set (columns df))"

text \<open>The (name, student id) pairs of the retained rows, in row order.\<close>

definition identities :: "dataframe \<Rightarrow> (string \<times> string) list" where
  "identities df = map (row_identity (has_sis df)) (df_students df)"

definition read_canvas_gradebook_csv ::
  "dataframe \<Rightarrow>
   csv_error + (string list \<times> (string \<rightharpoonup> int) \<times> (string \<rightharpoonup> (string \<rightharpoonup> string)))" where
  "read_canvas_gradebook_csv df =
     (if ''Student'' \<notin> set (columns df) then Inl Missing_Student_column
      else
        (let attendance_cols = filter attendance_col_match (columns df) in
         if attendance_cols = [] then Inl No_attendance_columns
         else
           (let (occ, roster, student_meta) =
                  assign_keys (identities df) (Map.empty, [], Map.empty);
                roster_keys_in_order = sort_key (roster_sort_key student_meta) roster;
                confirmed_attendance =
                  count_attendance attendance_cols (zip (identities df) (df_students df))
                    Map.empty Map.empty
            in Inr (roster_keys_in_order, confirmed_attendance, student_meta))))"

subsection \<open>Save and load\<close>

text \<open>
  The save file holds one JSON object. Its parsed form is modelled with the fields the
  program reads, each of them optional and, when present, of the JSON type that
  \<open>save_state\<close> writes (strings, a Boolean, an integer); the text encoding is left to the
  JSON library. A file is absent, unparsable, or parsed.
\<close>

record json_student =
  json_key :: "string option"
  json_name :: "string option"
  json_student_id :: "string option"
  json_tracked :: "bool option"
  json_used :: "int option"
  json_notes :: "string option"
  json_dropped :: "bool option"

record json_save =
  json_roster_keys_in_order :: "string list option"
  json_last_csv_name :: "string option"
  json_students :: "(string \<times> json_student) list option"

datatype save_file = Absent | Unparsable | Parsed json_save

datatype load_error = Failed_to_read

text \<open>The record rebuilt from one entry of the \<open>students\<close> object.\<close>

definition load_student :: "string \<Rightarrow> json_student \<Rightarrow> StudentState" where
  "load_student key_or_name sdata =
     (let k = (case json_key sdata of None \<Rightarrow> [] | Some v \<Rightarrow> v);
          k = (if k = []
               then (let legacy_name = key_or_name;
                         sid = strip (case json_student_id sdata of None \<Rightarrow> [] | Some v \<Rightarrow> v)
                     in if sid \<noteq> [] then ''sid:'' @ sid else ''name:'' @ legacy_name @ ''#1'')
               else k);
          nm = (case json_name sdata of None \<Rightarrow> key_or_name | Some v \<Rightarrow> v)
      in \<lparr>key = k, name = nm,
          student_id = (case json_student_id sdata of None \<Rightarrow> [] | Some v \<Rightarrow> v),
          tracked = (case json_tracked sdata of None \<Rightarrow> True | Some b \<Rightarrow> b),
          used = (case json_used sdata of None \<Rightarrow> 0 | Some n \<Rightarrow> n),
          notes' = (case json_notes sdata of None \<Rightarrow> [] | Some v \<Rightarrow> v),
          dropped = (case json_dropped sdata of None \<Rightarrow> False | Some b \<Rightarrow> b),
          attendance_confirmed = 0, earned = 0\<rparr>)"

definition load_save :: "save_file \<Rightarrow> load_error + SaveState option" where
  "load_save f =
     (case f of
        Absent \<Rightarrow> Inr None
      | Unparsable \<Rightarrow> Inl Failed_to_read
      | Parsed data \<Rightarrow>
          Inr (Some
            \<lparr>roster_keys_in_order =
               (case json_roster_keys_in_order data of None \<Rightarrow> [] | Some ks \<Rightarrow> ks),
             students =
               fold (\<lambda>(key_or_name, sdata) sts.
                       (let st = load_student key_or_name sdata in AList.update (key st) st sts))
                    (case json_students data of None \<Rightarrow> [] | Some raw \<Rightarrow> raw) [],
             last_csv_name = (case json_last_csv_name data of None \<Rightarrow> [] | Some v \<Rightarrow> v)\<rparr>))"

text \<open>The object that \<open>save_state\<close> writes to the save file.\<close>

definition save_state :: "SaveState \<Rightarrow> json_save" where
  "save_state state =
     \<lparr>json_roster_keys_in_order = Some (roster_keys_in_order state),
      json_last_csv_name = Some (last_csv_name state),
      json_students = Some (map (\<lambda>(k, st).
         (k, \<lparr>json_key = Some (key st), json_name = Some (name st),
              json_student_id = Some (student_id st), json_tracked = Some (tracked st),
              json_used = Some (used st), json_notes = Some (notes' st),
              json_dropped = Some (dropped st)\<rparr>)) (students state))\<rparr>"

subsection \<open>Example data\<close>

definition jane_prior :: SaveState where
  "jane_prior = \<lparr>roster_keys_in_order = [''name:Jane Doe#1''],
     students = [(''name:Jane Doe#1'',
       \<lparr>key = ''name:Jane Doe#1'', name = ''Jane Doe'', student_id = [], tracked = True, used = 1,
        notes' = ''late twice'', dropped = False, attendance_confirmed = 5, earned = 1\<rparr>)],
     last_csv_name = ''week1.csv''\<rparr>"

definition jane_meta :: "string \<rightharpoonup> (string \<rightharpoonup> string)" where
  "jane_meta = [''sid:4421'' \<mapsto> [''name'' \<mapsto> ''Jane Doe'', ''student_id'' \<mapsto> ''4421'']]"

definition one_slip :: StudentState where
  "one_slip = \<lparr>key = ''sid:4421'', name = ''Jane Doe'', student_id = ''4421'', tracked = True,
     used = 0, notes' = [], dropped = False, attendance_confirmed = 7, earned = 1\<rparr>"

definition three_meta :: "string \<rightharpoonup> (string \<rightharpoonup> string)" where
  "three_meta = [''sid:1001'' \<mapsto> [''name'' \<mapsto> ''Ann Abel'', ''student_id'' \<mapsto> ''1001''],
                 ''sid:4421'' \<mapsto> [''name'' \<mapsto> ''Jane Doe'', ''student_id'' \<mapsto> ''4421''],
                 ''name:Max Roe#1'' \<mapsto> [''name'' \<mapsto> ''Max Roe'', ''student_id'' \<mapsto> []]]"

text \<open>
  The invariants I1 to I3 as the specification words them: \<open>used \<le> earned\<close>, no two
  records share a key, and the derived fields agree with each other.
\<close>

definition spec_invariants :: "SaveState \<Rightarrow> bool" where
  "spec_invariants s =
     (list_all (\<lambda>(k, st). used st \<le> earned st) (students s) \<and>
      distinct (map (\<lambda>(k, st). key st) (students s)) \<and>
      list_all (\<lambda>(k, st). earned st = compute_earned (attendance_confirmed st)) (students s))"

definition jane_now :: SaveState where
  "jane_now = \<lparr>roster_keys_in_order = [''sid:4421''],
     students = [(''sid:4421'',
       \<lparr>key = ''sid:4421'', name = ''Jane Doe'', student_id = ''4421'', tracked = True, used = 1,
        notes' = ''late twice'', dropped = False, attendance_confirmed = 7, earned = 1\<rparr>)],
     last_csv_name = ''week3.csv''\<rparr>"

definition legacy_file :: json_save where
  "legacy_file = \<lparr>json_roster_keys_in_order = None, json_last_csv_name = None,
     json_students = Some
       [(''Jane Doe'', \<lparr>json_key = None, json_name = None, json_student_id = None,
            json_tracked = None, json_used = Some 1, json_notes = None, json_dropped = None\<rparr>),
        (''Max Roe'', \<lparr>json_key = None, json_name = None, json_student_id = Some ''77 '',
            json_tracked = None, json_used = None, json_notes = None, json_dropped = None\<rparr>)]\<rparr>"

subsection \<open>The fallback chain in the words of the specification\<close>

text \<open>
  \<open>claimed_match\<close> is the chain as the specification states it: the record stored under
  the key; else, for a non-empty id, a prior record with an equal id; else the prior record
  of the same name when exactly one bears it. \<open>matched_prior\<close> differs in two places: the
  prior id is compared after stripping white space (the last such record in the order of the
  prior dictionary is taken), and the name step needs a non-empty name.
\<close>

definition claimed_match ::
  "(string \<times> StudentState) list \<Rightarrow> string \<Rightarrow> string \<Rightarrow> string \<Rightarrow> StudentState option" where
  "claimed_match prior_students k nm sid =
     (case map_of prior_students k of
        Some p \<Rightarrow> Some p
      | None \<Rightarrow>
          (let by_id = filter (\<lambda>p. student_id p = sid) (map snd prior_students) in
           if sid \<noteq> [] \<and> by_id \<noteq> [] then Some (last by_id)
           else (let by_name = filter (\<lambda>p. name p = nm) (map snd prior_students) in
                 if length by_name = 1 then Some (hd by_name) else None)))"

definition matched_prior ::
  "(string \<times> StudentState) list \<Rightarrow> string \<Rightarrow> string \<Rightarrow> string \<Rightarrow> StudentState option" where
  "matched_prior prior_students k nm sid =
     (case map_of prior_students k of
        Some p \<Rightarrow> Some p
      | None \<Rightarrow>
          (let by_id = filter (\<lambda>p. strip (student_id p) = sid) (map snd prior_students) in
           if sid \<noteq> [] \<and> by_id \<noteq> [] then Some (last by_id)
           else (let by_name = filter (\<lambda>p. name p = nm) (map snd prior_students) in
                 if nm \<noteq> [] \<and> length by_name = 1 then Some (hd by_name) else None)))"

definition nameless_record :: StudentState where
  "nameless_record = \<lparr>key = ''name:#1'', name = [], student_id = [], tracked = True, used = 0,
     notes' = ''keep'', dropped = True, attendance_confirmed = 0, earned = 0\<rparr>"

definition nameless_prior :: SaveState where
  "nameless_prior = \<lparr>roster_keys_in_order = [''name:#1''],
     students = [(''name:#1'', nameless_record)], last_csv_name = ''week1.csv''\<rparr>"

definition padded_record :: StudentState where
  "padded_record = \<lparr>key = ''name:J. Doe#1'', name = ''J. Doe'', student_id = ''4421 '',
     tracked = True, used = 0, notes' = ''keep'', dropped = False, attendance_confirmed = 0,
     earned = 0\<rparr>"

definition padded_prior :: SaveState where
  "padded_prior = \<lparr>roster_keys_in_order = [''name:J. Doe#1''],
     students = [(''name:J. Doe#1'', padded_record)], last_csv_name = ''week1.csv''\<rparr>"

subsection \<open>The key loop, read off as functions of the rows\<close>

text \<open>
  The keys that the first loop appends, in row order, from a given occurrence counter.
\<close>

fun keys_from :: "(string \<rightharpoonup> nat) \<Rightarrow> (string \<times> string) list \<Rightarrow> string list" where
  "keys_from occ [] = []"
| "keys_from occ ((nm, sid) # rs) =
     fst (row_key nm sid occ) # keys_from (snd (row_key nm sid occ)) rs"

text \<open>The metadata entry stored for a row.\<close>

definition meta_entry :: "string \<times> string \<Rightarrow> (string \<rightharpoonup> string)" where
  "meta_entry p = [''name'' \<mapsto> fst p, ''student_id'' \<mapsto> snd p]"

text \<open>The roster before it is sorted: position \<open>i\<close> holds the key of the \<open>i\<close>-th retained row.\<close>

definition assigned_keys :: "dataframe \<Rightarrow> string list" where
  "assigned_keys df = fst (snd (assign_keys (identities df) (Map.empty, [], Map.empty)))"

text \<open>No two rows carry the same non-empty student id with different names.\<close>

definition consistent_ids :: "(string \<times> string) list \<Rightarrow> bool" where
  "consistent_ids ps =
     list_all (\<lambda>(nm, sid). list_all (\<lambda>(nm', sid'). sid \<noteq> [] \<and> sid = sid' \<longrightarrow> nm = nm') ps) ps"

definition roster_of ::
  "csv_error + (string list \<times> (string \<rightharpoonup> int) \<times> (string \<rightharpoonup> (string \<rightharpoonup> string))) \<Rightarrow> string list" where
  "roster_of res = (case res of Inl e \<Rightarrow> [] | Inr (roster, confirmed, sm) \<Rightarrow> roster)"

definition jane_csv :: dataframe where
  "jane_csv = \<lparr>columns = [''Student'', ''ID'', ''SIS User ID'', ''1-12 (7448946)'', ''1-14 (7448950)''],
     rows = [[''Student'' \<mapsto> ''    Points Possible'', ''SIS User ID'' \<mapsto> ''nan'',
              ''1-12 (7448946)'' \<mapsto> ''1.0'', ''1-14 (7448950)'' \<mapsto> ''1.0''],
             [''Student'' \<mapsto> ''Roe, Max'', ''SIS User ID'' \<mapsto> ''nan'',
              ''1-12 (7448946)'' \<mapsto> ''0.0'', ''1-14 (7448950)'' \<mapsto> ''1.0''],
             [''Student'' \<mapsto> ''Doe, Jane'', ''SIS User ID'' \<mapsto> ''4421.0'',
              ''1-12 (7448946)'' \<mapsto> ''1.0'', ''1-14 (7448950)'' \<mapsto> ''EX'']]\<rparr>"

definition jane_csv_reordered :: dataframe where
  "jane_csv_reordered = \<lparr>columns = [''Student'', ''SIS User ID'', ''1-12 (7448946)''],
     rows = [[''Student'' \<mapsto> ''Doe, Jane'', ''SIS User ID'' \<mapsto> ''4421'',
              ''1-12 (7448946)'' \<mapsto> ''1.0''],
             [''Student'' \<mapsto> ''Roe, Max'', ''SIS User ID'' \<mapsto> ''nan'',
              ''1-12 (7448946)'' \<mapsto> ''1.0'']]\<rparr>"

definition shared_id_csv :: dataframe where
  "shared_id_csv = \<lparr>columns = [''Student'', ''SIS User ID'', ''1-12 (7448946)''],
     rows = [[''Student'' \<mapsto> ''Bell, Ann'', ''SIS User ID'' \<mapsto> ''1'', ''1-12 (7448946)'' \<mapsto> ''1''],
             [''Student'' \<mapsto> ''Dodd, Cy'', ''SIS User ID'' \<mapsto> ''1'', ''1-12 (7448946)'' \<mapsto> ''1''],
             [''Student'' \<mapsto> ''Cole, Xi'', ''SIS User ID'' \<mapsto> ''2'', ''1-12 (7448946)'' \<mapsto> ''1'']]\<rparr>"

definition shared_id_csv_reordered :: dataframe where
  "shared_id_csv_reordered = \<lparr>columns = [''Student'', ''SIS User ID'', ''1-12 (7448946)''],
     rows = [[''Student'' \<mapsto> ''Dodd, Cy'', ''SIS User ID'' \<mapsto> ''1'', ''1-12 (7448946)'' \<mapsto> ''1''],
             [''Student'' \<mapsto> ''Bell, Ann'', ''SIS User ID'' \<mapsto> ''1'', ''1-12 (7448946)'' \<mapsto> ''1''],
             [''Student'' \<mapsto> ''Cole, Xi'', ''SIS User ID'' \<mapsto> ''2'', ''1-12 (7448946)'' \<mapsto> ''1'']]\<rparr>"

section \<open>Properties\<close>

subsection \<open>Dictionaries filled by a loop\<close>

lemma set_update_subset: "set (AList.update k v al) \<subseteq> insert (k, v) (set al)"
  by (induction al) auto

lemma fold_update_member:
  "(k, v) \<in> set (fold (\<lambda>k. AList.update k (f k)) ks al) \<Longrightarrow>
     (k, v) \<in> set al \<or> (k \<in> set ks \<and> v = f k)"
proof (induction ks arbitrary: al)
  case Nil
  then show ?case by simp
next
  case (Cons a ks)
  from Cons.IH [of "AList.update a (f a) al"] Cons.prems
  have "(k, v) \<in> set (AList.update a (f a) al) \<or> (k \<in> set ks \<and> v = f k)" by simp
  with set_update_subset [of a "f a" al] show ?case by auto
qed

lemma fold_update_keys_set:
  "fst ` set (fold (\<lambda>k. AList.update k (f k)) ks al) = set ks \<union> fst ` set al"
  by (induction ks arbitrary: al) (simp_all add: AList.dom_update Un_assoc)

lemma fold_update_distinct:
  "distinct (map fst al) \<Longrightarrow> distinct (map fst (fold (\<lambda>k. AList.update k (f k)) ks al))"
  by (induction ks arbitrary: al) (auto simp: AList.distinct_update)

lemma fold_update_map_of:
  "map_of (fold (\<lambda>k. AList.update k (f k)) ks al) k =
     (if k \<in> set ks then Some (f k) else map_of al k)"
  by (induction ks arbitrary: al) (auto simp: AList.update_conv')

lemma fold_update_cong:
  "(\<And>k. k \<in> set ks \<Longrightarrow> f k = g k) \<Longrightarrow>
     fold (\<lambda>k. AList.update k (f k)) ks al = fold (\<lambda>k. AList.update k (g k)) ks al"
  by (rule fold_cong) auto

lemma reconcile_student_clamped:
  "used (reconcile_student ac student_meta ps bs bn sel k)
     \<le> earned (reconcile_student ac student_meta ps bs bn sel k)"
  by (simp add: reconcile_student_def Let_def)

lemma students_reconcile:
  "\<exists>ps bs bn.
     (ps, bs, bn) = (prior_students_of prior, index_prior (map snd (prior_students_of prior))) \<and>
     students (reconcile_state_with_csv roster ac student_meta prior sel csv) =
     fold (\<lambda>k. AList.update k (reconcile_student ac student_meta ps bs bn sel k)) roster []"
  by (simp add: reconcile_state_with_csv_def Let_def split: prod.splits)

subsection \<open>Earned slip days\<close>

text \<open>
  C8. For every non-negative count \<open>c\<close>, the earned slip days are the floor division of \<open>c\<close>
  by 5, and the count \<open>c + 1\<close> earns the same unless \<open>c mod 5 = 4\<close>.
\<close>

theorem compute_earned_floor_div:
  "0 \<le> c \<Longrightarrow>
     compute_earned c = c div 5 \<and>
     5 * compute_earned c \<le> c \<and> c < 5 * compute_earned c + 5 \<and>
     (c mod 5 \<noteq> 4 \<longrightarrow> compute_earned c = compute_earned (c + 1))"
  unfolding compute_earned_def ATTENDANCES_PER_SLIP_def by presburger

theorem compute_earned_floor_div_witness:
  "(0::int) \<le> 7 \<and> compute_earned 7 = 1 \<and> compute_earned 7 = compute_earned 8"
  using compute_earned_floor_div [of 7] by simp

subsection \<open>Reconciliation\<close>

text \<open>
  C1. Whatever the roster, the prior state and the tracked selection, every record of the
  state returned by \<open>reconcile_state_with_csv\<close> has \<open>used \<le> earned\<close>.
\<close>

theorem reconcile_used_le_earned:
  "(k, st) \<in> set (students (reconcile_state_with_csv roster ac student_meta prior sel csv)) \<Longrightarrow>
     used st \<le> earned st"
  using students_reconcile[of prior roster ac student_meta sel csv]
  by (auto dest!: fold_update_member simp: reconcile_student_clamped)

theorem reconcile_used_le_earned_witness:
  "(''sid:4421'',
     \<lparr>key = ''sid:4421'', name = ''Jane Doe'', student_id = ''4421'', tracked = True, used = 0,
      notes' = ''late twice'', dropped = False, attendance_confirmed = 4, earned = 0\<rparr>)
     \<in> set (students (reconcile_state_with_csv [''sid:4421''] [''sid:4421'' \<mapsto> 4] jane_meta
                 (Some jane_prior) None ''week2.csv''))
   \<and> used \<lparr>key = ''sid:4421'', name = ''Jane Doe'', student_id = ''4421'', tracked = True, used = 0,
      notes' = ''late twice'', dropped = False, attendance_confirmed = 4, earned = 0\<rparr>
     \<le> earned \<lparr>key = ''sid:4421'', name = ''Jane Doe'', student_id = ''4421'', tracked = True, used = 0,
      notes' = ''late twice'', dropped = False, attendance_confirmed = 4, earned = 0\<rparr>"
proof -
  have m: "(''sid:4421'',
     \<lparr>key = ''sid:4421'', name = ''Jane Doe'', student_id = ''4421'', tracked = True, used = 0,
      notes' = ''late twice'', dropped = False, attendance_confirmed = 4, earned = 0\<rparr>)
     \<in> set (students (reconcile_state_with_csv [''sid:4421''] [''sid:4421'' \<mapsto> 4] jane_meta
                 (Some jane_prior) None ''week2.csv''))"
    by code_simp
  from m reconcile_used_le_earned [OF m] show ?thesis by blast
qed

lemma reconcile_student_selected:
  "tracked (reconcile_student ac student_meta ps bs bn (Some sel) k) = (k \<in> sel)"
  by (simp add: reconcile_student_def Let_def)

text \<open>
  C4. When a tracked selection is supplied, every record of the result is tracked exactly
  when its key is in the selection, whatever the prior state says; hence the number of
  tracked records is the number of selected keys that are on the roster (one, for a
  selection of one roster key).
\<close>

theorem reconcile_selection_decides_tracked:
  "(\<forall>(k, st) \<in> set (students (reconcile_state_with_csv roster ac student_meta prior (Some sel) csv)).
      tracked st = (k \<in> sel)) \<and>
   length (filter (\<lambda>(k, st). tracked st)
      (students (reconcile_state_with_csv roster ac student_meta prior (Some sel) csv))) =
   card (sel \<inter> set roster)"
proof -
  let ?al = "students (reconcile_state_with_csv roster ac student_meta prior (Some sel) csv)"
  obtain ps bs bn where S:
    "?al = fold (\<lambda>k. AList.update k (reconcile_student ac student_meta ps bs bn (Some sel) k)) roster []"
    using students_reconcile [of prior roster ac student_meta "Some sel" csv] by blast
  have tr: "tracked st = (k \<in> sel)" if "(k, st) \<in> set ?al" for k st
    using that unfolding S by (auto dest!: fold_update_member simp: reconcile_student_selected)
  have d: "distinct (map fst ?al)"
    unfolding S by (rule fold_update_distinct) simp
  have ks: "set (map fst ?al) = set roster"
    unfolding S by (simp add: fold_update_keys_set)
  have "filter (\<lambda>(k, st). tracked st) ?al = filter (\<lambda>p. fst p \<in> sel) ?al"
    by (rule filter_cong) (auto simp: tr)
  then have "length (filter (\<lambda>(k, st). tracked st) ?al) =
             length (filter (\<lambda>k. k \<in> sel) (map fst ?al))"
    by (simp add: filter_map comp_def)
  also have "\<dots> = card (set (filter (\<lambda>k. k \<in> sel) (map fst ?al)))"
    by (rule distinct_card [symmetric]) (rule distinct_filter [OF d])
  also have "set (filter (\<lambda>k. k \<in> sel) (map fst ?al)) = sel \<inter> set roster"
    using ks by auto
  finally have "length (filter (\<lambda>(k, st). tracked st) ?al) = card (sel \<inter> set roster)" .
  with tr show ?thesis by auto
qed

theorem reconcile_selection_decides_tracked_witness:
  "(''sid:1001'',
      \<lparr>key = ''sid:1001'', name = ''Ann Abel'', student_id = ''1001'', tracked = False, used = 0,
       notes' = [], dropped = False, attendance_confirmed = 0, earned = 0\<rparr>)
     \<in> set (students (reconcile_state_with_csv [''sid:1001'', ''sid:4421'', ''name:Max Roe#1'']
          Map.empty three_meta (Some jane_prior) (Some {''sid:4421''}) ''week2.csv'')) \<and>
   length (filter (\<lambda>(k, st). tracked st)
      (students (reconcile_state_with_csv [''sid:1001'', ''sid:4421'', ''name:Max Roe#1'']
          Map.empty three_meta (Some jane_prior) (Some {''sid:4421''}) ''week2.csv''))) = 1"
proof -
  have m: "(''sid:1001'',
      \<lparr>key = ''sid:1001'', name = ''Ann Abel'', student_id = ''1001'', tracked = False, used = 0,
       notes' = [], dropped = False, attendance_confirmed = 0, earned = 0\<rparr>)
     \<in> set (students (reconcile_state_with_csv [''sid:1001'', ''sid:4421'', ''name:Max Roe#1'']
          Map.empty three_meta (Some jane_prior) (Some {''sid:4421''}) ''week2.csv''))"
    by code_simp
  from m reconcile_selection_decides_tracked
      [of "[''sid:1001'', ''sid:4421'', ''name:Max Roe#1'']" Map.empty three_meta
          "Some jane_prior" "{''sid:4421''}" "''week2.csv''"]
  show ?thesis by simp
qed

lemma reconcile_student_again:
  "map_of ps' k = Some (reconcile_student ac student_meta ps bs bn sel k) \<Longrightarrow>
     reconcile_student ac student_meta ps' bs' bn' None k =
     reconcile_student ac student_meta ps bs bn sel k"
  by (simp add: reconcile_student_def find_prev_def Let_def)

text \<open>
  C7. Reconciling the result of a reconciliation again, against the same roster, counts and
  metadata and without a tracked selection, returns the same state: the same roster order
  and the same records, field for field (and the snapshot name of the second run).
\<close>

theorem reconcile_idempotent:
  "reconcile_state_with_csv roster ac student_meta
      (Some (reconcile_state_with_csv roster ac student_meta prior sel csv)) None csv' =
   (reconcile_state_with_csv roster ac student_meta prior sel csv)\<lparr>last_csv_name := csv'\<rparr>"
proof -
  obtain ps bs bn where S:
    "students (reconcile_state_with_csv roster ac student_meta prior sel csv) =
       fold (\<lambda>k. AList.update k (reconcile_student ac student_meta ps bs bn sel k)) roster []"
    using students_reconcile [of prior roster ac student_meta sel csv] by blast
  let ?S = "reconcile_state_with_csv roster ac student_meta prior sel csv"
  obtain ps' bs' bn' where S':
    "(ps', bs', bn') = (prior_students_of (Some ?S), index_prior (map snd (prior_students_of (Some ?S))))"
    "students (reconcile_state_with_csv roster ac student_meta (Some ?S) None csv') =
       fold (\<lambda>k. AList.update k (reconcile_student ac student_meta ps' bs' bn' None k)) roster []"
    using students_reconcile [of "Some ?S" roster ac student_meta None csv'] by auto
  have "reconcile_student ac student_meta ps' bs' bn' None k =
        reconcile_student ac student_meta ps bs bn sel k" if "k \<in> set roster" for k
  proof (rule reconcile_student_again)
    from S'(1) have "ps' = students ?S" by (simp add: prior_students_of_def)
    with S that show "map_of ps' k = Some (reconcile_student ac student_meta ps bs bn sel k)"
      by (simp add: fold_update_map_of)
  qed
  then have "students (reconcile_state_with_csv roster ac student_meta (Some ?S) None csv') =
             students ?S"
    unfolding S S'(2) by (rule fold_update_cong)
  moreover have "roster_keys_in_order (reconcile_state_with_csv roster ac student_meta (Some ?S) None csv') = roster_keys_in_order ?S"
    by (simp add: reconcile_state_with_csv_def Let_def split: prod.splits)
  moreover have "last_csv_name (reconcile_state_with_csv roster ac student_meta (Some ?S) None csv') = csv'"
    by (simp add: reconcile_state_with_csv_def Let_def split: prod.splits)
  ultimately show ?thesis by simp
qed

subsection \<open>Using a slip day\<close>

text \<open>
  C6. For a positive \<open>n\<close>, \<open>do_use\<close> refuses (a message is shown and the record is
  unchanged) when the record is dropped or \<open>n\<close> exceeds \<open>available = max 0 (earned - used)\<close>;
  otherwise it shows nothing and only adds \<open>n\<close> to \<open>used\<close>.
\<close>

theorem do_use_refuses_or_adds:
  "0 < n \<Longrightarrow>
     available r = max 0 (earned r - used r) \<and>
     (dropped r \<or> available r < n \<longrightarrow> (\<exists>m. do_use r n = (Some m, r))) \<and>
     (\<not> (dropped r \<or> available r < n) \<longrightarrow> do_use r n = (None, r\<lparr>used := used r + n\<rparr>))"
  by (simp add: do_use_def available_def)

theorem do_use_refuses_or_adds_witness:
  "(0::int) < 2 \<and> available one_slip < 2 \<and> (\<exists>m. do_use one_slip 2 = (Some m, one_slip)) \<and>
   used (snd (do_use one_slip 2)) = 0 \<and>
   (0::int) < 1 \<and> \<not> (dropped one_slip \<or> available one_slip < 1) \<and>
   do_use one_slip 1 = (None, one_slip\<lparr>used := 1\<rparr>)"
  using do_use_refuses_or_adds [of 2 one_slip] do_use_refuses_or_adds [of 1 one_slip]
  by (auto simp: one_slip_def available_def)

subsection \<open>Save and load\<close>

lemma update_fresh: "k \<notin> fst ` set al \<Longrightarrow> AList.update k v al = al @ [(k, v)]"
  by (induction al) auto

lemma fold_update_fresh:
  "distinct (map g xs) \<Longrightarrow> set (map g xs) \<inter> fst ` set al = {} \<Longrightarrow>
     fold (\<lambda>x. AList.update (g x) (h x)) xs al = al @ map (\<lambda>x. (g x, h x)) xs"
proof (induction xs arbitrary: al)
  case Nil
  then show ?case by simp
next
  case (Cons x xs)
  from Cons.prems have fresh: "g x \<notin> fst ` set al" by auto
  have "set (map g xs) \<inter> fst ` set (al @ [(g x, h x)]) = {}"
    using Cons.prems by auto
  with Cons.IH [of "al @ [(g x, h x)]"] Cons.prems
  have "fold (\<lambda>x. AList.update (g x) (h x)) xs (al @ [(g x, h x)]) =
        (al @ [(g x, h x)]) @ map (\<lambda>x. (g x, h x)) xs" by simp
  then show ?case by (simp add: update_fresh [OF fresh])
qed

lemma fold_update_keys_gen:
  "fst ` set (fold (\<lambda>x. AList.update (g x) (h x)) xs al) = g ` set xs \<union> fst ` set al"
  by (induction xs arbitrary: al) (simp_all add: AList.dom_update Un_assoc)

lemma fold_update_member_gen:
  "(k, v) \<in> set (fold (\<lambda>x. AList.update (g x) (h x)) xs al) \<Longrightarrow>
     (k, v) \<in> set al \<or> (\<exists>x \<in> set xs. k = g x \<and> v = h x)"
proof (induction xs arbitrary: al)
  case Nil
  then show ?case by simp
next
  case (Cons a xs)
  from Cons.IH [of "AList.update (g a) (h a) al"] Cons.prems
  have "(k, v) \<in> set (AList.update (g a) (h a) al) \<or> (\<exists>x \<in> set xs. k = g x \<and> v = h x)"
    by simp
  with set_update_subset [of "g a" "h a" al] show ?case by auto
qed

lemma load_save_Parsed:
  "load_save (Parsed data) =
     Inr (Some \<lparr>roster_keys_in_order =
               (case json_roster_keys_in_order data of None \<Rightarrow> [] | Some ks \<Rightarrow> ks),
             students =
               fold (\<lambda>x. AList.update (key (load_student (fst x) (snd x)))
                            (load_student (fst x) (snd x)))
                    (case json_students data of None \<Rightarrow> [] | Some raw \<Rightarrow> raw) [],
             last_csv_name = (case json_last_csv_name data of None \<Rightarrow> [] | Some v \<Rightarrow> v)\<rparr>)"
  by (simp add: load_save_def Let_def case_prod_unfold)

lemma load_student_saved:
  "key st \<noteq> [] \<Longrightarrow>
     load_student k \<lparr>json_key = Some (key st), json_name = Some (name st),
              json_student_id = Some (student_id st), json_tracked = Some (tracked st),
              json_used = Some (used st), json_notes = Some (notes' st),
              json_dropped = Some (dropped st)\<rparr> = st\<lparr>attendance_confirmed := 0, earned := 0\<rparr>"
  by (simp add: load_student_def)

lemma load_saved_students:
  assumes "distinct (map fst al)"
    and "\<forall>(k, st) \<in> set al. key st = k \<and> k \<noteq> []"
  shows "fold (\<lambda>x. AList.update (key (load_student (fst x) (snd x)))
                            (load_student (fst x) (snd x)))
           (map (\<lambda>(k, st).
              (k, \<lparr>json_key = Some (key st), json_name = Some (name st),
                   json_student_id = Some (student_id st), json_tracked = Some (tracked st),
                   json_used = Some (used st), json_notes = Some (notes' st),
                   json_dropped = Some (dropped st)\<rparr>)) al) [] =
         map (\<lambda>(k, st). (k, st\<lparr>attendance_confirmed := 0, earned := 0\<rparr>)) al"
    (is "fold (\<lambda>x. AList.update (?g x) (?h x)) (map ?enc al) [] = ?rhs")
proof -
  have each: "?h (?enc (k, st)) = st\<lparr>attendance_confirmed := 0, earned := 0\<rparr> \<and> ?g (?enc (k, st)) = k"
    if "(k, st) \<in> set al" for k st
    using that assms(2) by (auto simp: load_student_saved)
  have ks: "key st = k" if "(k, st) \<in> set al" for k st
    using that assms(2) by auto
  have g: "map ?g (map ?enc al) = map fst al"
    using each ks by auto
  have "fold (\<lambda>x. AList.update (?g x) (?h x)) (map ?enc al) [] =
        [] @ map (\<lambda>x. (?g x, ?h x)) (map ?enc al)"
  proof (rule fold_update_fresh)
    show "distinct (map ?g (map ?enc al))" unfolding g by (rule assms(1))
    show "set (map ?g (map ?enc al)) \<inter> fst ` set [] = {}" by simp
  qed
  also have "\<dots> = ?rhs"
    using each ks by auto
  finally show ?thesis .
qed

text \<open>
  C5 (as amended). For a state whose records are stored under their own, non-empty keys,
  loading what \<open>save_state\<close> wrote gives back the roster order, the snapshot name and the
  persisted fields of every record (\<open>key\<close>, \<open>name\<close>, \<open>student_id\<close>, \<open>tracked\<close>, \<open>used\<close>,
  \<open>notes\<close>, \<open>dropped\<close>) in the same order; the derived fields \<open>attendance_confirmed\<close> and
  \<open>earned\<close> are not written and come back as 0.
\<close>

theorem load_save_round_trip:
  assumes "distinct (map fst (students s))"
    and "\<forall>(k, st) \<in> set (students s). key st = k \<and> k \<noteq> []"
  shows "load_save (Parsed (save_state s)) =
     Inr (Some (s\<lparr>students :=
        map (\<lambda>(k, st). (k, st\<lparr>attendance_confirmed := 0, earned := 0\<rparr>)) (students s)\<rparr>))"
  unfolding load_save_Parsed
  by (simp add: save_state_def load_saved_students [OF assms])

theorem load_save_round_trip_witness:
  "distinct (map fst (students jane_now)) \<and>
   list_all (\<lambda>(k, st). key st = k \<and> k \<noteq> []) (students jane_now) \<and>
   load_save (Parsed (save_state jane_now)) =
     Inr (Some \<lparr>roster_keys_in_order = [''sid:4421''],
       students = [(''sid:4421'',
         \<lparr>key = ''sid:4421'', name = ''Jane Doe'', student_id = ''4421'', tracked = True, used = 1,
          notes' = ''late twice'', dropped = False, attendance_confirmed = 0, earned = 0\<rparr>)],
       last_csv_name = ''week3.csv''\<rparr>)"
proof -
  have d: "distinct (map fst (students jane_now))" by (simp add: jane_now_def)
  have k: "\<forall>(k, st) \<in> set (students jane_now). key st = k \<and> k \<noteq> []"
    by (simp add: jane_now_def)
  from load_save_round_trip [OF d k] d k show ?thesis by (simp add: jane_now_def)
qed

theorem load_save_round_trip_counterexample:
  "spec_invariants jane_now \<and> load_save (Parsed (save_state jane_now)) \<noteq> Inr (Some jane_now)"
  by (simp add: spec_invariants_def jane_now_def load_save_Parsed save_state_def load_student_def
      compute_earned_def ATTENDANCES_PER_SLIP_def)

lemma load_student_defaults:
  "(json_tracked sd = None \<longrightarrow> tracked (load_student kn sd)) \<and>
   (json_used sd = None \<longrightarrow> used (load_student kn sd) = 0) \<and>
   (json_notes sd = None \<longrightarrow> notes' (load_student kn sd) = []) \<and>
   (json_dropped sd = None \<longrightarrow> \<not> dropped (load_student kn sd))"
  by (simp add: load_student_def Let_def)

lemma reconcile_student_unmatched:
  "find_prev ps bs bn k (meta_name sm k) (meta_sid sm k) = None \<Longrightarrow>
     \<not> tracked (reconcile_student ac sm ps bs bn None k)"
  by (simp add: reconcile_student_def Let_def)

text \<open>
  C10. A record object without a \<open>tracked\<close> field is loaded with \<open>tracked = True\<close> (and
  \<open>used = 0\<close>, \<open>notes = ""\<close>, \<open>dropped = False\<close> when these are absent), so a save file without
  any stored \<open>tracked\<close> flag loads as an all-tracked state; reconciliation gives a record
  without a prior match \<open>tracked = False\<close>, as it does for every record when there is no
  prior state.
\<close>

theorem legacy_load_all_tracked:
  "(json_tracked sd = None \<longrightarrow> tracked (load_student kn sd)) \<and>
   (json_used sd = None \<longrightarrow> used (load_student kn sd) = 0) \<and>
   (json_notes sd = None \<longrightarrow> notes' (load_student kn sd) = []) \<and>
   (json_dropped sd = None \<longrightarrow> \<not> dropped (load_student kn sd)) \<and>
   ((\<forall>(kn, sd) \<in> set raw. json_tracked sd = None) \<longrightarrow>
      (\<exists>s. load_save (Parsed (data\<lparr>json_students := Some raw\<rparr>)) = Inr (Some s) \<and>
           fst ` set (students s) = (\<lambda>(kn, sd). key (load_student kn sd)) ` set raw \<and>
           (\<forall>(k, st) \<in> set (students s). tracked st))) \<and>
   (find_prev ps bs bn k (meta_name sm k) (meta_sid sm k) = None \<longrightarrow>
      \<not> tracked (reconcile_student ac sm ps bs bn None k)) \<and>
   (\<forall>(k, st) \<in> set (students (reconcile_state_with_csv roster ac sm None None csv)).
      \<not> tracked st)"
proof -
  have a: "\<exists>s. load_save (Parsed (data\<lparr>json_students := Some raw\<rparr>)) = Inr (Some s) \<and>
           fst ` set (students s) = (\<lambda>(kn, sd). key (load_student kn sd)) ` set raw \<and>
           (\<forall>(k, st) \<in> set (students s). tracked st)"
    if all: "\<forall>(kn, sd) \<in> set raw. json_tracked sd = None"
  proof -
    let ?al = "fold (\<lambda>x. AList.update (key (load_student (fst x) (snd x)))
                            (load_student (fst x) (snd x))) raw []"
    have "tracked st" if "(k, st) \<in> set ?al" for k st
    proof -
      from fold_update_member_gen [OF that] obtain x where
        "x \<in> set raw" "st = load_student (fst x) (snd x)" by auto
      with all show ?thesis by (cases x) (auto simp: load_student_def Let_def)
    qed
    moreover have "fst ` set ?al = (\<lambda>(kn, sd). key (load_student kn sd)) ` set raw"
      by (simp add: fold_update_keys_gen case_prod_unfold)
    ultimately show ?thesis
      unfolding load_save_Parsed by auto
  qed
  have b: "\<not> tracked st"
    if "(k, st) \<in> set (students (reconcile_state_with_csv roster ac sm None None csv))" for k st
  proof -
    obtain ps bs bn where
      "(ps, bs, bn) = (prior_students_of None, index_prior (map snd (prior_students_of None)))"
      and S: "students (reconcile_state_with_csv roster ac sm None None csv) =
        fold (\<lambda>k. AList.update k (reconcile_student ac sm ps bs bn None k)) roster []"
      using students_reconcile [of None roster ac sm None csv] by blast
    then have "ps = []" "bs = Map.empty" "bn = Map.empty"
      by (simp_all add: prior_students_of_def index_prior_def)
    then have "find_prev ps bs bn k (meta_name sm k) (meta_sid sm k) = None"
      by (simp add: find_prev_def Let_def)
    from reconcile_student_unmatched [OF this] that S show ?thesis
      by (auto dest!: fold_update_member)
  qed
  from a b load_student_defaults [of sd kn] reconcile_student_unmatched [of ps bs bn k sm ac]
  show ?thesis by auto
qed

theorem legacy_load_all_tracked_witness:
  "list_all (\<lambda>(kn, sd). json_tracked sd = None) (the (json_students legacy_file)) \<and>
   load_save (Parsed legacy_file) =
     Inr (Some \<lparr>roster_keys_in_order = [],
       students =
        [(''name:Jane Doe#1'',
          \<lparr>key = ''name:Jane Doe#1'', name = ''Jane Doe'', student_id = [], tracked = True,
           used = 1, notes' = [], dropped = False, attendance_confirmed = 0, earned = 0\<rparr>),
         (''sid:77'',
          \<lparr>key = ''sid:77'', name = ''Max Roe'', student_id = ''77 '', tracked = True, used = 0,
           notes' = [], dropped = False, attendance_confirmed = 0, earned = 0\<rparr>)],
       last_csv_name = []\<rparr>) \<and>
   (\<exists>s. load_save (Parsed legacy_file) = Inr (Some s) \<and>
        list_all (\<lambda>(k, st). tracked st) (students s))"
proof -
  have h: "\<forall>(kn, sd) \<in> set (the (json_students legacy_file)). json_tracked sd = None"
    by (simp add: legacy_file_def)
  have e: "legacy_file\<lparr>json_students := Some (the (json_students legacy_file))\<rparr> = legacy_file"
    by (simp add: legacy_file_def)
  have v: "load_save (Parsed legacy_file) =
     Inr (Some \<lparr>roster_keys_in_order = [],
       students =
        [(''name:Jane Doe#1'',
          \<lparr>key = ''name:Jane Doe#1'', name = ''Jane Doe'', student_id = [], tracked = True,
           used = 1, notes' = [], dropped = False, attendance_confirmed = 0, earned = 0\<rparr>),
         (''sid:77'',
          \<lparr>key = ''sid:77'', name = ''Max Roe'', student_id = ''77 '', tracked = True, used = 0,
           notes' = [], dropped = False, attendance_confirmed = 0, earned = 0\<rparr>)],
       last_csv_name = []\<rparr>)"
    by code_simp
  from legacy_load_all_tracked [of _ _ "the (json_students legacy_file)" legacy_file] h e v
  show ?thesis by (auto simp: list_all_iff)
qed

subsection \<open>Matching a roster key to a prior record\<close>

lemma index_fold_sid:
  "fst (fold index_step psts (bs, bn)) sid =
     (if sid \<noteq> [] \<and> filter (\<lambda>p. strip (student_id p) = sid) psts \<noteq> []
      then Some (last (filter (\<lambda>p. strip (student_id p) = sid) psts))
      else bs sid)"
proof (induction psts arbitrary: bs bn)
  case Nil
  then show ?case by simp
next
  case (Cons p psts)
  obtain bs' bn' where st: "index_step p (bs, bn) = (bs', bn')" by (cases "index_step p (bs, bn)")
  then have bs': "bs' = (if strip (student_id p) \<noteq> [] then bs(strip (student_id p) \<mapsto> p) else bs)"
    by (auto simp: index_step_def Let_def)
  have "fst (fold index_step (p # psts) (bs, bn)) sid = fst (fold index_step psts (bs', bn')) sid"
    by (simp add: st)
  also have "\<dots> =
     (if sid \<noteq> [] \<and> filter (\<lambda>p. strip (student_id p) = sid) psts \<noteq> []
      then Some (last (filter (\<lambda>p. strip (student_id p) = sid) psts))
      else bs' sid)"
    by (rule Cons.IH)
  also have "\<dots> =
     (if sid \<noteq> [] \<and> filter (\<lambda>p. strip (student_id p) = sid) (p # psts) \<noteq> []
      then Some (last (filter (\<lambda>p. strip (student_id p) = sid) (p # psts)))
      else bs sid)"
    by (auto simp: bs')
  finally show ?case .
qed

lemma index_fold_name:
  "snd (fold index_step psts (bs, bn)) nm =
     (if filter (\<lambda>p. name p = nm) psts = [] then bn nm
      else Some ((case bn nm of None \<Rightarrow> [] | Some ms \<Rightarrow> ms) @ filter (\<lambda>p. name p = nm) psts))"
proof (induction psts arbitrary: bs bn)
  case Nil
  then show ?case by simp
next
  case (Cons p psts)
  obtain bs' bn' where st: "index_step p (bs, bn) = (bs', bn')" by (cases "index_step p (bs, bn)")
  then have bn': "bn' = bn(name p \<mapsto> (case bn (name p) of None \<Rightarrow> [] | Some ms \<Rightarrow> ms) @ [p])"
    by (auto simp: index_step_def Let_def)
  have "snd (fold index_step (p # psts) (bs, bn)) nm = snd (fold index_step psts (bs', bn')) nm"
    by (simp add: st)
  also have "\<dots> =
     (if filter (\<lambda>p. name p = nm) psts = [] then bn' nm
      else Some ((case bn' nm of None \<Rightarrow> [] | Some ms \<Rightarrow> ms) @ filter (\<lambda>p. name p = nm) psts))"
    by (rule Cons.IH)
  also have "\<dots> =
     (if filter (\<lambda>p. name p = nm) (p # psts) = [] then bn nm
      else Some ((case bn nm of None \<Rightarrow> [] | Some ms \<Rightarrow> ms) @
                 filter (\<lambda>p. name p = nm) (p # psts)))"
    by (auto simp: bn')
  finally show ?case .
qed

lemma find_prev_matched_prior:
  "find_prev ps (fst (index_prior (map snd ps))) (snd (index_prior (map snd ps))) k nm sid =
     matched_prior ps k nm sid"
  by (cases "map_of ps k")
     (auto simp: find_prev_def matched_prior_def Let_def index_prior_def index_fold_sid
        index_fold_name simp del: length_filter_map)


lemma reconcile_state_students:
  "students (reconcile_state_with_csv roster ac sm prior sel csv) =
     fold (\<lambda>k. AList.update k
        (reconcile_student ac sm (prior_students_of prior)
           (fst (index_prior (map snd (prior_students_of prior))))
           (snd (index_prior (map snd (prior_students_of prior)))) sel k)) roster []"
  by (simp add: reconcile_state_with_csv_def Let_def case_prod_unfold)

text \<open>
  C2 (as amended). For every key on the roster, the prior record is found by the first
  success of: the record stored under that key; if the row's id is not empty, the last prior
  record whose id, stripped of white space, equals it; if the row's name is not empty, the
  prior record of that name when exactly one bears it. The record carries \<open>notes\<close> and
  \<open>dropped\<close> of the match, \<open>used\<close> clamped to \<open>earned\<close>, and \<open>tracked\<close> when no selection is
  given; without a match it starts from \<open>tracked = False\<close>, \<open>used = 0\<close>, \<open>notes = ""\<close>,
  \<open>dropped = False\<close>.
\<close>

theorem reconcile_matches_by_chain:
  "k \<in> set roster \<Longrightarrow>
     (\<exists>r. map_of (students (reconcile_state_with_csv roster ac sm prior sel csv)) k = Some r \<and>
        (case matched_prior (prior_students_of prior) k (meta_name sm k) (meta_sid sm k) of
           None \<Rightarrow>
             notes' r = [] \<and> \<not> dropped r \<and> used r = min 0 (earned r) \<and>
             (sel = None \<longrightarrow> \<not> tracked r)
         | Some p \<Rightarrow>
             notes' r = notes' p \<and> dropped r = dropped p \<and> used r = min (used p) (earned r) \<and>
             (sel = None \<longrightarrow> tracked r = tracked p))) \<and>
     find_prev (prior_students_of prior)
        (fst (index_prior (map snd (prior_students_of prior))))
        (snd (index_prior (map snd (prior_students_of prior))))
        k (meta_name sm k) (meta_sid sm k) =
     matched_prior (prior_students_of prior) k (meta_name sm k) (meta_sid sm k)"
  by (auto simp: reconcile_state_students fold_update_map_of reconcile_student_def Let_def
        find_prev_matched_prior split: option.splits)

theorem reconcile_matches_by_chain_witness:
  "''sid:4421'' \<in> set [''sid:4421''] \<and>
   matched_prior (prior_students_of (Some jane_prior)) ''sid:4421''
      (meta_name jane_meta ''sid:4421'') (meta_sid jane_meta ''sid:4421'') =
     Some \<lparr>key = ''name:Jane Doe#1'', name = ''Jane Doe'', student_id = [], tracked = True,
        used = 1, notes' = ''late twice'', dropped = False, attendance_confirmed = 5,
        earned = 1\<rparr> \<and>
   (\<exists>r. map_of (students (reconcile_state_with_csv [''sid:4421''] [''sid:4421'' \<mapsto> 4] jane_meta
              (Some jane_prior) None ''week2.csv'')) ''sid:4421'' = Some r \<and>
        notes' r = ''late twice'' \<and> earned r = 0 \<and> used r = 0 \<and> tracked r)"
proof -
  have m: "matched_prior (prior_students_of (Some jane_prior)) ''sid:4421''
      (meta_name jane_meta ''sid:4421'') (meta_sid jane_meta ''sid:4421'') =
     Some \<lparr>key = ''name:Jane Doe#1'', name = ''Jane Doe'', student_id = [], tracked = True,
        used = 1, notes' = ''late twice'', dropped = False, attendance_confirmed = 5,
        earned = 1\<rparr>"
    by code_simp
  have e: "earned (the (map_of (students (reconcile_state_with_csv [''sid:4421'']
              [''sid:4421'' \<mapsto> 4] jane_meta (Some jane_prior) None ''week2.csv'')) ''sid:4421'')) = 0"
    by code_simp
  from reconcile_matches_by_chain [of "''sid:4421''" "[''sid:4421'']" "[''sid:4421'' \<mapsto> 4]"
      jane_meta "Some jane_prior" None "''week2.csv''"] m e
  show ?thesis by auto
qed

theorem reconcile_matches_by_chain_counterexample:
  "claimed_match (prior_students_of (Some nameless_prior)) ''sid:9''
      (meta_name Map.empty ''sid:9'') (meta_sid Map.empty ''sid:9'') = Some nameless_record \<and>
   notes' nameless_record = ''keep'' \<and> dropped nameless_record \<and> tracked nameless_record \<and>
   map_of (students (reconcile_state_with_csv [''sid:9''] Map.empty Map.empty
              (Some nameless_prior) None ''week2.csv'')) ''sid:9'' =
     Some \<lparr>key = ''sid:9'', name = [], student_id = [], tracked = False, used = 0,
        notes' = [], dropped = False, attendance_confirmed = 0, earned = 0\<rparr> \<and>
   claimed_match (prior_students_of (Some padded_prior)) ''sid:4421''
      (meta_name jane_meta ''sid:4421'') (meta_sid jane_meta ''sid:4421'') = None \<and>
   map_of (students (reconcile_state_with_csv [''sid:4421''] Map.empty jane_meta
              (Some padded_prior) None ''week2.csv'')) ''sid:4421'' =
     Some \<lparr>key = ''sid:4421'', name = ''Jane Doe'', student_id = ''4421'', tracked = True,
        used = 0, notes' = ''keep'', dropped = False, attendance_confirmed = 0, earned = 0\<rparr>"
  by code_simp

subsection \<open>Identity keys of the rows\<close>

lemma length_keys_from [simp]: "length (keys_from occ ps) = length ps"
  by (induction ps arbitrary: occ) auto

lemma assign_keys_roster:
  "fst (snd (assign_keys ps (occ, r, m))) = r @ keys_from occ ps"
  by (induction ps arbitrary: occ r m) (auto simp: case_prod_unfold Let_def)

lemma assign_keys_meta:
  "snd (snd (assign_keys ps (occ, r, m))) =
     fold (\<lambda>kp m. m(fst kp \<mapsto> meta_entry (snd kp))) (zip (keys_from occ ps) ps) m"
  by (induction ps arbitrary: occ r m) (auto simp: case_prod_unfold Let_def meta_entry_def)

lemma fold_meta_lookup:
  "fold (\<lambda>kp m. m(fst kp \<mapsto> f (snd kp))) kps m k =
     (if filter (\<lambda>kp. fst kp = k) kps = [] then m k
      else Some (f (snd (last (filter (\<lambda>kp. fst kp = k) kps)))))"
  by (induction kps arbitrary: m) auto

lemma keys_from_sid:
  "i < length ps \<Longrightarrow> snd (ps ! i) \<noteq> [] \<Longrightarrow> keys_from occ ps ! i = ''sid:'' @ snd (ps ! i)"
proof (induction ps arbitrary: occ i)
  case Nil
  then show ?case by simp
next
  case (Cons p ps)
  then show ?case
    by (cases p; cases i) (auto simp: row_key_def)
qed

lemma tagged_key_form:
  "(k, (nm, sid)) \<in> set (zip (keys_from occ ps) ps) \<Longrightarrow>
     (sid \<noteq> [] \<and> k = ''sid:'' @ sid) \<or>
     (sid = [] \<and> (\<exists>n. k = ''name:'' @ nm @ ''#'' @ string_of_nat n))"
proof (induction ps arbitrary: occ)
  case Nil
  then show ?case by simp
next
  case (Cons p ps)
  then show ?case
    by (cases p) (auto simp: row_key_def Let_def split: if_splits)
qed


lemma read_canvas_gradebook_csv_Inr:
  assumes "read_canvas_gradebook_csv df = Inr (roster, confirmed, sm)"
  shows "sm = fold (\<lambda>kp m. m(fst kp \<mapsto> meta_entry (snd kp)))
                 (zip (keys_from Map.empty (identities df)) (identities df)) Map.empty"
    and "roster = sort_key (roster_sort_key sm) (keys_from Map.empty (identities df))"
proof -
  obtain occ r m where a: "assign_keys (identities df) (Map.empty, [], Map.empty) = (occ, r, m)"
    by (cases "assign_keys (identities df) (Map.empty, [], Map.empty)")
  from assign_keys_roster [of "identities df" Map.empty "[]" Map.empty] a
  have r: "r = keys_from Map.empty (identities df)" by simp
  from assign_keys_meta [of "identities df" Map.empty "[]" Map.empty] a
  have m: "m = fold (\<lambda>kp m. m(fst kp \<mapsto> meta_entry (snd kp)))
                 (zip (keys_from Map.empty (identities df)) (identities df)) Map.empty" by simp
  from assms a have "sm = m \<and> roster = sort_key (roster_sort_key m) r"
    by (auto simp: read_canvas_gradebook_csv_def Let_def split: if_splits)
  with r m show
    "sm = fold (\<lambda>kp m. m(fst kp \<mapsto> meta_entry (snd kp)))
                 (zip (keys_from Map.empty (identities df)) (identities df)) Map.empty"
    "roster = sort_key (roster_sort_key sm) (keys_from Map.empty (identities df))"
    by simp_all
qed

lemma tagged_meta_sid:
  assumes "(''sid:'' @ sid, p) \<in> set (zip (keys_from occ ps) ps)"
  shows "meta_sid (fold (\<lambda>kp m. m(fst kp \<mapsto> meta_entry (snd kp))) (zip (keys_from occ ps) ps) m0)
           (''sid:'' @ sid) = sid"
proof -
  let ?kps = "zip (keys_from occ ps) ps"
  let ?hits = "filter (\<lambda>kp. fst kp = ''sid:'' @ sid) ?kps"
  from assms have ne: "?hits \<noteq> []"
    by (force simp: filter_empty_conv)
  then have "last ?hits \<in> set ?hits" by (rule last_in_set)
  then have l: "last ?hits \<in> set ?kps" "fst (last ?hits) = ''sid:'' @ sid" by auto
  obtain k nm s where e: "last ?hits = (k, (nm, s))" by (cases "last ?hits") auto
  with l tagged_key_form [of k nm s occ ps] have "s = sid" by auto
  have "fold (\<lambda>kp m. m(fst kp \<mapsto> meta_entry (snd kp))) ?kps m0 (''sid:'' @ sid) =
        Some (meta_entry (snd (last ?hits)))"
    using ne by (simp only: fold_meta_lookup if_False)
  with e \<open>s = sid\<close> show ?thesis
    by (simp add: meta_sid_def meta_of_def meta_entry_def)
qed

lemma read_canvas_gradebook_csv_succeeds:
  "''Student'' \<in> set (columns df) \<Longrightarrow> filter attendance_col_match (columns df) \<noteq> [] \<Longrightarrow>
     \<exists>roster confirmed sm. read_canvas_gradebook_csv df = Inr (roster, confirmed, sm)"
  by (simp add: read_canvas_gradebook_csv_def Let_def case_prod_unfold)

text \<open>
  C3 (as amended). A retained row with a non-empty student id (after \<open>normalize_sis\<close>: text
  stripped, \<open>nan\<close> taken as absent, a trailing \<open>.0\<close> after digits removed) is given the key
  \<open>sid:\<close> followed by that id; the key is on the returned roster and its metadata holds
  the id. An id of 4421 yields \<open>sid:4421\<close>.
\<close>

theorem sid_row_gets_sid_key:
  assumes "read_canvas_gradebook_csv df = Inr (roster, confirmed, sm)"
    and "i < length (df_students df)"
    and "has_sis df"
    and "normalize_sis ((df_students df ! i) ''SIS User ID'') = sid"
    and "sid \<noteq> []"
  shows "assigned_keys df ! i = ''sid:'' @ sid \<and> ''sid:'' @ sid \<in> set roster \<and>
         meta_sid sm (''sid:'' @ sid) = sid"
proof -
  let ?ids = "identities df"
  let ?ks = "keys_from Map.empty ?ids"
  from assms(2) have i: "i < length ?ids" by (simp add: identities_def)
  from assms(2-4) have s: "snd (?ids ! i) = sid"
    by (simp add: identities_def row_identity_def)
  from keys_from_sid [OF i, of Map.empty] s assms(5) have k: "?ks ! i = ''sid:'' @ sid" by simp
  then have a: "assigned_keys df ! i = ''sid:'' @ sid"
    by (simp add: assigned_keys_def assign_keys_roster)
  from i k have "''sid:'' @ sid \<in> set ?ks" by (metis length_keys_from nth_mem)
  then have b: "''sid:'' @ sid \<in> set roster"
    by (simp add: read_canvas_gradebook_csv_Inr(2) [OF assms(1)])
  from i k have "(''sid:'' @ sid, ?ids ! i) \<in> set (zip ?ks ?ids)"
    by (auto simp: in_set_zip intro!: exI [of _ i])
  then have c: "meta_sid sm (''sid:'' @ sid) = sid"
    unfolding read_canvas_gradebook_csv_Inr(1) [OF assms(1)] by (rule tagged_meta_sid)
  from a b c show ?thesis by simp
qed

theorem sid_row_gets_sid_key_witness:
  "1 < length (df_students jane_csv) \<and> has_sis jane_csv \<and>
   (df_students jane_csv ! 1) ''SIS User ID'' = Some ''4421.0'' \<and>
   normalize_sis ((df_students jane_csv ! 1) ''SIS User ID'') = ''4421'' \<and>
   (\<exists>roster confirmed sm.
      read_canvas_gradebook_csv jane_csv = Inr (roster, confirmed, sm) \<and>
      assigned_keys jane_csv ! 1 = ''sid:4421'' \<and> ''sid:4421'' \<in> set roster \<and>
      meta_sid sm ''sid:4421'' = ''4421'')"
proof -
  have c: "''Student'' \<in> set (columns jane_csv)"
    "filter attendance_col_match (columns jane_csv) \<noteq> []"
    by code_simp+
  have h: "1 < length (df_students jane_csv)" "has_sis jane_csv"
    "(df_students jane_csv ! 1) ''SIS User ID'' = Some ''4421.0''"
    "normalize_sis ((df_students jane_csv ! 1) ''SIS User ID'') = ''4421''"
    by code_simp+
  from read_canvas_gradebook_csv_succeeds [OF c] obtain roster confirmed sm where
    r: "read_canvas_gradebook_csv jane_csv = Inr (roster, confirmed, sm)" by blast
  from sid_row_gets_sid_key [OF r h(1,2,4)] r h show ?thesis by auto
qed

theorem sid_row_gets_sid_key_counterexample:
  "normalize_sis ((df_students jane_csv ! 1) ''SIS User ID'') = ''4421'' \<and>
   assigned_keys jane_csv ! 1 \<noteq> ''id:'' @ ''4421'' \<and>
   (case read_canvas_gradebook_csv jane_csv of
      Inl e \<Rightarrow> [] | Inr (roster, confirmed, sm) \<Rightarrow> roster) = [''sid:4421'', ''name:Max Roe#1'']"
  by code_simp

subsection \<open>The roster does not depend on the order of the rows\<close>

lemma reorder_invariant:
  assumes swap: "\<And>s a b rs. F s (a # b # rs) = F s (b # a # rs)"
    and cong: "\<And>s a rs rs'. (\<And>s'. F s' rs = F s' rs') \<Longrightarrow> F s (a # rs) = F s (a # rs')"
    and perm: "mset xs = mset ys"
  shows "F s xs = F s ys"
proof -
  have move: "F s (a # ys1 @ ys2) = F s (ys1 @ a # ys2)" for s a ys1 ys2
  proof (induction ys1 arbitrary: s)
    case Nil
    show ?case by simp
  next
    case (Cons b ys1)
    have "F s (a # (b # ys1) @ ys2) = F s (b # a # ys1 @ ys2)"
      using swap [of s a b "ys1 @ ys2"] by simp
    also have "\<dots> = F s (b # ys1 @ a # ys2)"
      by (rule cong) (rule Cons.IH)
    finally show ?case by simp
  qed
  from perm show ?thesis
  proof (induction xs arbitrary: ys s)
    case Nil
    then show ?case by simp
  next
    case (Cons a xs)
    from Cons.prems have "a \<in> set ys"
      by (metis list.set_intros(1) mset_eq_setD)
    then obtain ys1 ys2 where ys: "ys = ys1 @ a # ys2"
      by (auto simp: in_set_conv_decomp)
    with Cons.prems have "mset xs = mset (ys1 @ ys2)" by simp
    then have "F s' xs = F s' (ys1 @ ys2)" for s' by (rule Cons.IH)
    then have "F s (a # xs) = F s (a # ys1 @ ys2)" by (rule cong)
    also have "\<dots> = F s (ys1 @ a # ys2)" by (rule move)
    finally show ?case by (simp add: ys)
  qed
qed

lemma tagged_swap:
  "mset (zip (keys_from occ (a # b # rs)) (a # b # rs)) =
   mset (zip (keys_from occ (b # a # rs)) (b # a # rs))"
proof (cases a; cases b)
  fix nm sid nm' sid'
  assume a: "a = (nm, sid)" and b: "b = (nm', sid')"
  show ?thesis
  proof (cases "a = b")
    case True
    then show ?thesis by simp
  next
    case False
    with a b show ?thesis
      by (auto simp: row_key_def Let_def fun_upd_twist)
  qed
qed

lemma tagged_cong:
  "(\<And>occ'. mset (zip (keys_from occ' rs) rs) = mset (zip (keys_from occ' rs') rs')) \<Longrightarrow>
     mset (zip (keys_from occ (a # rs)) (a # rs)) = mset (zip (keys_from occ (a # rs')) (a # rs'))"
  by (cases a) simp

lemma tagged_reorder:
  "mset ps = mset ps' \<Longrightarrow>
     mset (zip (keys_from occ ps) ps) = mset (zip (keys_from occ ps') ps')"
  by (rule reorder_invariant [where F = "\<lambda>occ ps. mset (zip (keys_from occ ps) ps)"])
     (rule tagged_swap, rule tagged_cong, assumption+)


lemma string_of_nat_no_hash: "CHR ''#'' \<notin> set (string_of_nat n)"
proof (induction n rule: string_of_nat.induct)
  case (1 n)
  have d: "CHR ''#'' \<noteq> char_of (48 + m)" if "m < 10" for m :: nat
  proof
    assume "CHR ''#'' = char_of (48 + m)"
    then have "of_char (char_of (48 + m) :: char) = (of_char CHR ''#'' :: nat)" by simp
    with that show False by (simp add: of_char_of)
  qed
  show ?case
  proof (cases "n < 10")
    case True
    then show ?thesis by (simp add: string_of_nat.simps [of n] d)
  next
    case False
    with "1.IH" have "CHR ''#'' \<notin> set (string_of_nat (n div 10))" by simp
    with False show ?thesis by (simp add: string_of_nat.simps [of n] d)
  qed
qed

lemma before_last_hash:
  "xs @ CHR ''#'' # d = ys @ CHR ''#'' # e \<Longrightarrow> CHR ''#'' \<notin> set d \<Longrightarrow> CHR ''#'' \<notin> set e \<Longrightarrow>
     xs = ys"
proof (induction xs arbitrary: ys)
  case Nil
  then show ?case by (cases ys) auto
next
  case (Cons x xs)
  then show ?case by (cases ys) auto
qed

lemma tagged_snd_in: "(k, p) \<in> set (zip (keys_from occ ps) ps) \<Longrightarrow> p \<in> set ps"
  by (auto dest: set_zip_rightD)

lemma tagged_functional:
  assumes c: "consistent_ids ps"
    and 1: "(k, p) \<in> set (zip (keys_from occ ps) ps)"
    and 2: "(k, p') \<in> set (zip (keys_from occ ps) ps)"
  shows "p = p'"
proof -
  obtain nm sid nm' sid' where p: "p = (nm, sid)" "p' = (nm', sid')"
    by (cases p; cases p') auto
  have f:
    "(sid \<noteq> [] \<and> k = ''sid:'' @ sid) \<or> (sid = [] \<and> (\<exists>n. k = ''name:'' @ nm @ ''#'' @ string_of_nat n))"
    "(sid' \<noteq> [] \<and> k = ''sid:'' @ sid') \<or> (sid' = [] \<and> (\<exists>n. k = ''name:'' @ nm' @ ''#'' @ string_of_nat n))"
    by (rule tagged_key_form [OF 1 [unfolded p]], rule tagged_key_form [OF 2 [unfolded p]])
  from 1 2 p have m: "(nm, sid) \<in> set ps" "(nm', sid') \<in> set ps"
    by (auto dest: tagged_snd_in)
  show ?thesis
  proof (cases "sid = []")
    case True
    with f have "sid' = []" by auto
    with True f have "nm = nm'"
      by (auto dest: before_last_hash simp: string_of_nat_no_hash)
    with True \<open>sid' = []\<close> p show ?thesis by simp
  next
    case False
    with f have s: "sid' = sid" by auto
    with False c m have "nm = nm'"
      by (fastforce simp: consistent_ids_def list_all_iff)
    with s p show ?thesis by simp
  qed
qed

lemma meta_from_tagged_eq:
  assumes fn: "\<And>k p p'. (k, p) \<in> set kps \<Longrightarrow> (k, p') \<in> set kps \<Longrightarrow> p = p'"
    and eq: "set kps = set kps'"
  shows "fold (\<lambda>kp m. m(fst kp \<mapsto> f (snd kp))) kps m0 =
         fold (\<lambda>kp m. m(fst kp \<mapsto> f (snd kp))) kps' m0"
proof
  fix k
  let ?h = "filter (\<lambda>kp. fst kp = k) kps" and ?h' = "filter (\<lambda>kp. fst kp = k) kps'"
  have e: "(?h = []) = (?h' = [])"
    using eq by (auto simp: filter_empty_conv)
  have "snd (last ?h) = snd (last ?h')" if "?h \<noteq> []"
  proof -
    from that e have ne': "?h' \<noteq> []" by simp
    have "last ?h \<in> set ?h" "last ?h' \<in> set ?h'"
      by (rule last_in_set [OF that], rule last_in_set [OF ne'])
    then have "last ?h \<in> {x \<in> set kps. fst x = k}" "last ?h' \<in> {x \<in> set kps'. fst x = k}"
      by (simp_all only: set_filter)
    with eq have "last ?h \<in> set kps" "last ?h' \<in> set kps" "fst (last ?h) = k" "fst (last ?h') = k"
      by blast+
    then have "(k, snd (last ?h)) \<in> set kps" "(k, snd (last ?h')) \<in> set kps"
      by (metis prod.collapse)+
    then show ?thesis by (rule fn)
  qed
  with e show "fold (\<lambda>kp m. m(fst kp \<mapsto> f (snd kp))) kps m0 k =
         fold (\<lambda>kp m. m(fst kp \<mapsto> f (snd kp))) kps' m0 k"
    by (simp only: fold_meta_lookup) auto
qed

lemma roster_sort_key_inj: "inj_on (roster_sort_key sm) A"
  by (rule inj_onI) (simp add: roster_sort_key_def Let_def)

lemma sort_by_roster_key_reorder:
  assumes "mset ks = mset ks'"
  shows "sort_key (roster_sort_key sm) ks = sort_key (roster_sort_key sm) ks'"
proof (rule properties_for_sort_key)
  show "mset (sort_key (roster_sort_key sm) ks') = mset ks" using assms by simp
  show "sorted (map (roster_sort_key sm) (sort_key (roster_sort_key sm) ks'))" by simp
  fix k
  have i: "(roster_sort_key sm k = roster_sort_key sm x) = (k = x)" for x
    by (auto simp: roster_sort_key_def Let_def)
  have "filter ((=) k) (sort_key (roster_sort_key sm) ks') = filter ((=) k) ks"
    using assms by (metis replicate_count_mset_eq_filter_eq mset_sort)
  then show "filter (\<lambda>x. roster_sort_key sm k = roster_sort_key sm x)
          (sort_key (roster_sort_key sm) ks') =
        filter (\<lambda>x. roster_sort_key sm k = roster_sort_key sm x) ks"
    by (simp add: i)
qed

lemma dom_meta_from_tagged:
  "dom (fold (\<lambda>kp m. m(fst kp \<mapsto> f (snd kp))) kps m0) = fst ` set kps \<union> dom m0"
  by (induction kps arbitrary: m0) auto

text \<open>
  C9 (as amended). Two snapshots whose retained rows carry the same multiset of (name,
  student id) pairs produce the same set of keys, and each roster is sorted by
  (lower-cased last name, lower-cased other name tokens, student id, key). When no two rows
  carry the same non-empty student id with different names, they also produce the same
  roster order and the same metadata.
\<close>

theorem roster_independent_of_row_order:
  assumes "read_canvas_gradebook_csv df1 = Inr (roster1, confirmed1, sm1)"
    and "read_canvas_gradebook_csv df2 = Inr (roster2, confirmed2, sm2)"
    and "mset (identities df1) = mset (identities df2)"
  shows "set roster1 = set roster2 \<and> dom sm1 = dom sm2 \<and>
         sorted (map (roster_sort_key sm1) roster1) \<and>
         (consistent_ids (identities df1) \<longrightarrow> roster1 = roster2 \<and> sm1 = sm2)"
proof -
  let ?k1 = "keys_from Map.empty (identities df1)"
  let ?k2 = "keys_from Map.empty (identities df2)"
  let ?t1 = "zip ?k1 (identities df1)"
  let ?t2 = "zip ?k2 (identities df2)"
  have t: "mset ?t1 = mset ?t2" using assms(3) by (rule tagged_reorder)
  then have st: "set ?t1 = set ?t2" by (rule mset_eq_setD)
  have m1: "sm1 = fold (\<lambda>kp m. m(fst kp \<mapsto> meta_entry (snd kp))) ?t1 Map.empty"
    by (rule read_canvas_gradebook_csv_Inr(1) [OF assms(1)])
  have m2: "sm2 = fold (\<lambda>kp m. m(fst kp \<mapsto> meta_entry (snd kp))) ?t2 Map.empty"
    by (rule read_canvas_gradebook_csv_Inr(1) [OF assms(2)])
  from t have "mset (map fst ?t1) = mset (map fst ?t2)" by (metis mset_map)
  then have ks: "mset ?k1 = mset ?k2" by simp
  have r1: "roster1 = sort_key (roster_sort_key sm1) ?k1"
    by (rule read_canvas_gradebook_csv_Inr(2) [OF assms(1)])
  have r2: "roster2 = sort_key (roster_sort_key sm2) ?k2"
    by (rule read_canvas_gradebook_csv_Inr(2) [OF assms(2)])
  from ks have "set ?k1 = set ?k2" by (rule mset_eq_setD)
  then have a: "set roster1 = set roster2" by (simp add: r1 r2)
  have b: "dom sm1 = dom sm2"
    unfolding m1 m2 by (simp only: dom_meta_from_tagged st)
  have c: "sorted (map (roster_sort_key sm1) roster1)" unfolding r1 by simp
  have d: "roster1 = roster2 \<and> sm1 = sm2" if cons: "consistent_ids (identities df1)"
  proof -
    have "fold (\<lambda>kp m. m(fst kp \<mapsto> meta_entry (snd kp))) ?t1 Map.empty =
          fold (\<lambda>kp m. m(fst kp \<mapsto> meta_entry (snd kp))) ?t2 Map.empty"
      using st by (rule meta_from_tagged_eq [rotated]) (rule tagged_functional [OF cons])
    then have sm: "sm1 = sm2" by (simp only: m1 m2)
    from ks have "sort_key (roster_sort_key sm1) ?k1 = sort_key (roster_sort_key sm1) ?k2"
      by (rule sort_by_roster_key_reorder)
    then have "roster1 = roster2" using r1 r2 sm by simp
    with sm show ?thesis by simp
  qed
  from a b c d show ?thesis by blast
qed

theorem roster_independent_of_row_order_witness:
  "mset (identities jane_csv) = mset (identities jane_csv_reordered) \<and>
   (\<exists>roster1 confirmed1 sm1 roster2 confirmed2 sm2.
      read_canvas_gradebook_csv jane_csv = Inr (roster1, confirmed1, sm1) \<and>
      read_canvas_gradebook_csv jane_csv_reordered = Inr (roster2, confirmed2, sm2) \<and>
      roster1 = roster2 \<and> sm1 = sm2 \<and> roster1 = [''sid:4421'', ''name:Max Roe#1''])"
proof -
  have c1: "''Student'' \<in> set (columns jane_csv)"
    "filter attendance_col_match (columns jane_csv) \<noteq> []"
    by code_simp+
  have c2: "''Student'' \<in> set (columns jane_csv_reordered)"
    "filter attendance_col_match (columns jane_csv_reordered) \<noteq> []"
    by code_simp+
  have i1: "identities jane_csv = [(''Max Roe'', []), (''Jane Doe'', ''4421'')]" by code_simp
  have i2: "identities jane_csv_reordered = [(''Jane Doe'', ''4421''), (''Max Roe'', [])]"
    by code_simp
  have m: "mset (identities jane_csv) = mset (identities jane_csv_reordered)"
    by (simp add: i1 i2 add_mset_commute)
  have c: "consistent_ids (identities jane_csv)" by code_simp
  have r: "roster_of (read_canvas_gradebook_csv jane_csv) = [''sid:4421'', ''name:Max Roe#1'']"
    by code_simp
  from read_canvas_gradebook_csv_succeeds [OF c1] obtain roster1 confirmed1 sm1 where
    r1: "read_canvas_gradebook_csv jane_csv = Inr (roster1, confirmed1, sm1)" by blast
  from read_canvas_gradebook_csv_succeeds [OF c2] obtain roster2 confirmed2 sm2 where
    r2: "read_canvas_gradebook_csv jane_csv_reordered = Inr (roster2, confirmed2, sm2)" by blast
  from roster_independent_of_row_order [OF r1 r2 m] c r r1 r2 m show ?thesis
    by (simp add: roster_of_def)
qed

theorem roster_independent_of_row_order_counterexample:
  "identities shared_id_csv = [(''Ann Bell'', ''1''), (''Cy Dodd'', ''1''), (''Xi Cole'', ''2'')] \<and>
   identities shared_id_csv_reordered =
     [(''Cy Dodd'', ''1''), (''Ann Bell'', ''1''), (''Xi Cole'', ''2'')] \<and>
   mset (identities shared_id_csv) = mset (identities shared_id_csv_reordered) \<and>
   roster_of (read_canvas_gradebook_csv shared_id_csv) = [''sid:2'', ''sid:1'', ''sid:1''] \<and>
   roster_of (read_canvas_gradebook_csv shared_id_csv_reordered) = [''sid:1'', ''sid:1'', ''sid:2'']"
proof -
  have a: "identities shared_id_csv = [(''Ann Bell'', ''1''), (''Cy Dodd'', ''1''), (''Xi Cole'', ''2'')]"
    by code_simp
  have b: "identities shared_id_csv_reordered =
     [(''Cy Dodd'', ''1''), (''Ann Bell'', ''1''), (''Xi Cole'', ''2'')]"
    by code_simp
  have c: "roster_of (read_canvas_gradebook_csv shared_id_csv) = [''sid:2'', ''sid:1'', ''sid:1'']"
    by code_simp
  have d: "roster_of (read_canvas_gradebook_csv shared_id_csv_reordered) =
      [''sid:1'', ''sid:1'', ''sid:2'']"
    by code_simp
  from a b c d show ?thesis by (simp add: add_mset_commute)
qed

end
